theory Spec2Isabelle
  imports Main "HOL-Library.Word"
begin

section \<open>The hystrix HTTP client of heimdall (hystrix\_client.go)\<close>

text \<open>
  The client issues one HTTP request through a hystrix circuit breaker and retries it
  in a loop, sleeping for a back-off interval after every failed attempt. The standard
  HTTP client, the hystrix library, \<open>http.NewRequest\<close> and \<open>time.Sleep\<close> are
  collaborators outside the file: the embedding takes what they answer from an
  environment and writes every call to them into a trace, so that the number and the
  order of the calls can be stated.
\<close>

subsection \<open>Data\<close>

text \<open>
  Go's \<open>int\<close> is the 64-bit signed integer of the usual platforms, \<open>time.Duration\<close> is
  an \<open>int64\<close> of nanoseconds. Both are words: \<open>+\<close> wraps around, \<open>sint\<close> reads the
  value and \<open>\<le>s\<close> is the signed comparison that Go's \<open><=\<close> is on them.
\<close>

type_synonym go_int = "64 word"
type_synonym duration = "64 word"
type_synonym bytes = "8 word list"

text \<open>The largest \<open>int\<close>, \<open>math.MaxInt64\<close>.\<close>

definition MaxInt :: go_int where
  "MaxInt = 0x7FFFFFFFFFFFFFFF"

text \<open>
  Errors are values. \<open>Err\<close> is an error of a collaborator (transport, body read,
  request construction), the two hystrix errors are its rejections of a call,
  \<open>Errorf_ServerDown c\<close> is
  \<^verbatim>\<open>fmt.Errorf("Server is down: returned status code: %d", c)\<close>,
  \<open>Wrap err msg\<close> is \<^verbatim>\<open>errors.Wrap(err, msg)\<close> and \<open>FallbackFailed fe err\<close> is
  the error hystrix builds when the fallback of a failed run returns \<open>fe\<close>.
\<close>

datatype goerror =
    Err string
  | ErrCircuitOpen
  | ErrMaxConcurrency
  | Errorf_ServerDown go_int
  | Wrap goerror string
  | FallbackFailed goerror goerror

text \<open>
  The \<open>Response\<close> of the package. \<open>Response{}\<close> has status 0 and a nil body; a nil
  slice and an empty one are both the empty list here.
\<close>

record Response =
  statusCode :: go_int
  body :: bytes

definition empty_Response :: Response where
  "empty_Response = \<lparr>statusCode = 0, body = []\<rparr>"

text \<open>
  \<open>*http.Request\<close>, with the one field the client writes. The request is a pointer
  that \<open>do\<close> mutates once before its loop; the model passes the updated value on.
\<close>

record Request =
  Method :: string
  URL :: string
  ReqBody :: "bytes option"
  Close :: bool

text \<open>
  The body of an \<open>*http.Response\<close> is an \<open>io.ReadCloser\<close> interface value, possibly
  nil. Of a reader the client only observes what \<open>ioutil.ReadAll\<close> returns: the bytes
  read and the error that stopped the reading, if any.
\<close>

record ReadCloser =
  read_data :: bytes
  read_err :: "goerror option"

record http_Response =
  StatusCode :: go_int
  Body :: "ReadCloser option"

record CommandConfig =
  Timeout :: go_int
  MaxConcurrentRequests :: go_int
  RequestVolumeThreshold :: go_int
  SleepWindow :: go_int
  ErrorPercentThreshold :: go_int

text \<open>
  The client. \<open>client_Timeout\<close> is the \<open>Timeout\<close> of its \<open>http.Client\<close>; \<open>retrier\<close>
  is the \<open>NextInterval\<close> method of the \<open>Retriable\<close> it holds.
\<close>

record hystrixHTTPClient =
  client_Timeout :: duration
  hystrixCommandName :: string
  hystrixCommandConfig :: CommandConfig
  retryCount :: go_int
  retrier :: "go_int \<Rightarrow> duration"

subsection \<open>The environment and the trace\<close>

datatype admission = Admit | Reject goerror

text \<open>
  What the collaborators answer. The attempts of one call are numbered from 0 in the
  order of the invocations of \<open>hystrix.Do\<close>: \<open>admission e name n\<close> is the breaker's
  decision at attempt \<open>n\<close>, and \<open>transport e n request\<close> is what
  \<open>hhc.client.Do(request)\<close> returns when attempt \<open>n\<close> makes the call.
\<close>

record env =
  http_NewRequest :: "string \<Rightarrow> string \<Rightarrow> bytes option \<Rightarrow> goerror + Request"
  admission :: "string \<Rightarrow> nat \<Rightarrow> admission"
  transport :: "nat \<Rightarrow> Request \<Rightarrow> goerror + http_Response"

datatype event =
    SetClose bool
  | HystrixDo string
  | ClientDo Request
  | Sleep duration

text \<open>
  The state outside the client: how many invocations of \<open>hystrix.Do\<close> have completed,
  and the calls made so far, oldest first.
\<close>

record world =
  attempts :: nat
  trace :: "event list"

definition log :: "event \<Rightarrow> world \<Rightarrow> world" where
  "log ev w = w\<lparr>trace := trace w @ [ev]\<rparr>"

datatype 'a exec = Done 'a | Panic

datatype 'a result = Returns 'a | Panics | OutOfFuel

subsection \<open>Construction and setters\<close>

definition defaultHystrixRetryCount :: go_int where
  "defaultHystrixRetryCount = 0"

text \<open>
  Modelled from the spec: \<open>NewNoRetrier\<close> is declared in a file of the package that
  is not among the sources; the spec says that a "no retry" strategy returns 0 always.
\<close>

definition NewNoRetrier :: "go_int \<Rightarrow> duration" where
  "NewNoRetrier = (\<lambda>retry. 0)"

definition NewHystrixHTTPClient :: "go_int \<Rightarrow> CommandConfig \<Rightarrow> hystrixHTTPClient" where
  "NewHystrixHTTPClient timeoutInSeconds config =
     (let httpTimeout = timeoutInSeconds * 1000000000 in
      \<lparr>client_Timeout = httpTimeout,
       hystrixCommandName = ''default'',
       hystrixCommandConfig = config,
       retryCount = defaultHystrixRetryCount,
       retrier = NewNoRetrier\<rparr>)"

definition SetRetryCount :: "hystrixHTTPClient \<Rightarrow> go_int \<Rightarrow> hystrixHTTPClient" where
  "SetRetryCount hhc count = hhc\<lparr>retryCount := count\<rparr>"

definition SetRetrier :: "hystrixHTTPClient \<Rightarrow> (go_int \<Rightarrow> duration) \<Rightarrow> hystrixHTTPClient" where
  "SetRetrier hhc r = hhc\<lparr>retrier := r\<rparr>"

subsection \<open>One attempt\<close>

text \<open>
  The function \<open>do\<close> hands to \<open>hystrix.Do\<close> as the unit of work. It captures the
  request and the accumulated response \<open>hr\<close>, which it updates in place. A nil body
  skips the read, and \<open>response.Body.Close()\<close> on it is a nil dereference: a panic.
\<close>

definition run :: "env \<Rightarrow> Request \<Rightarrow> world \<times> Response \<Rightarrow> goerror option exec \<times> world \<times> Response" where
  "run e request s =
     (case s of (w, hr) \<Rightarrow>
        (let w1 = log (ClientDo request) w in
         case transport e (attempts w) request of
           Inl err \<Rightarrow> (Done (Some err), w1, hr)
         | Inr response \<Rightarrow>
             (case Body response of
                None \<Rightarrow> (Panic, w1, hr)
              | Some rc \<Rightarrow>
                  (let hr1 = hr\<lparr>body := read_data rc\<rparr> in
                   case read_err rc of
                     Some err \<Rightarrow> (Done (Some err), w1, hr1)
                   | None \<Rightarrow>
                       (let hr2 = hr1\<lparr>statusCode := StatusCode response\<rparr> in
                        if 500 \<le>s StatusCode response
                        then (Done (Some (Errorf_ServerDown (StatusCode response))), w1, hr2)
                        else (Done None, w1, hr2))))))"

text \<open>
  Modelled from the spec: \<open>hystrix.Do(name, run, fallback)\<close> belongs to the hystrix
  library, which is not among the sources. The definition is its contract as far as
  one caller sees it when the run ends within the breaker's timeout: the breaker admits
  or rejects the call (the decision is the environment's); a rejected call does not run
  and its error goes to the fallback; an admitted call runs once, and the error of a
  failed run goes to the fallback; a fallback that returns an error makes \<open>Do\<close> return
  an error, and \<open>Do\<close> returns nil otherwise. A panic of the run is not recovered. A
  run that outlasts the timeout goes on concurrently with the caller and is not
  modelled.
\<close>

definition tryFallback :: "(goerror \<Rightarrow> goerror option) \<Rightarrow> goerror \<Rightarrow> goerror option" where
  "tryFallback fallback err =
     (case fallback err of
        None \<Rightarrow> None
      | Some fallbackErr \<Rightarrow> Some (FallbackFailed fallbackErr err))"

definition hystrix_Do ::
  "env \<Rightarrow> string \<Rightarrow> (world \<times> Response \<Rightarrow> goerror option exec \<times> world \<times> Response) \<Rightarrow>
   (goerror \<Rightarrow> goerror option) \<Rightarrow> world \<times> Response \<Rightarrow> goerror option exec \<times> world \<times> Response" where
  "hystrix_Do e name work fallback s =
     (case s of (w, hr) \<Rightarrow>
        (let w1 = log (HystrixDo name) w in
         case admission e name (attempts w) of
           Reject err \<Rightarrow> (Done (tryFallback fallback err), w1\<lparr>attempts := Suc (attempts w1)\<rparr>, hr)
         | Admit \<Rightarrow>
             (case work (w1, hr) of
                (Panic, w2, hr2) \<Rightarrow> (Panic, w2, hr2)
              | (Done None, w2, hr2) \<Rightarrow> (Done None, w2\<lparr>attempts := Suc (attempts w2)\<rparr>, hr2)
              | (Done (Some err), w2, hr2) \<Rightarrow>
                  (Done (tryFallback fallback err), w2\<lparr>attempts := Suc (attempts w2)\<rparr>, hr2))))"

text \<open>The call of \<open>hystrix.Do\<close> in the loop body, with the fallback that returns its argument.\<close>

definition attempt ::
  "hystrixHTTPClient \<Rightarrow> env \<Rightarrow> Request \<Rightarrow> world \<times> Response \<Rightarrow> goerror option exec \<times> world \<times> Response" where
  "attempt hhc e request s =
     hystrix_Do e (hystrixCommandName hhc) (run e request) (\<lambda>err. Some err) s"

subsection \<open>The retry loop and the verbs\<close>

text \<open>
  The \<open>for\<close> loop of \<open>do\<close>, from the counter \<open>i\<close> on. The counter is a Go \<open>int\<close>, so
  \<open>i++\<close> wraps, and the loop need not end: each iteration, and the final test of the
  condition, uses one unit of fuel.
\<close>

fun do_loop ::
  "nat \<Rightarrow> hystrixHTTPClient \<Rightarrow> env \<Rightarrow> Request \<Rightarrow> go_int \<Rightarrow> world \<times> Response \<Rightarrow>
   (Response \<times> goerror option) result \<times> world" where
  "do_loop 0 hhc e request i (w, hr) = (OutOfFuel, w)"
| "do_loop (Suc fuel) hhc e request i (w, hr) =
     (if i \<le>s retryCount hhc then
        (case attempt hhc e request (w, hr) of
           (Panic, w', hr') \<Rightarrow> (Panics, w')
         | (Done (Some err), w', hr') \<Rightarrow>
             (let backoffTime = retrier hhc i
              in do_loop fuel hhc e request (i + 1) (log (Sleep backoffTime) w', hr'))
         | (Done None, w', hr') \<Rightarrow> (Returns (hr', None), w'))
      else (Returns (hr, None), w))"

definition do ::
  "nat \<Rightarrow> hystrixHTTPClient \<Rightarrow> env \<Rightarrow> Request \<Rightarrow> (Response \<times> goerror option) result \<times> world" where
  "do fuel hhc e request =
     (let hr = empty_Response;
          request' = request\<lparr>Close := True\<rparr>
      in do_loop fuel hhc e request' 0 (\<lparr>attempts = 0, trace = [SetClose True]\<rparr>, hr))"

definition Get ::
  "nat \<Rightarrow> hystrixHTTPClient \<Rightarrow> env \<Rightarrow> string \<Rightarrow> (Response \<times> goerror option) result \<times> world" where
  "Get fuel hhc e url =
     (let response = empty_Response in
      case http_NewRequest e ''GET'' url None of
        Inl err \<Rightarrow>
          (Returns (response, Some (Wrap err ''GET - request creation failed'')),
           \<lparr>attempts = 0, trace = []\<rparr>)
      | Inr request \<Rightarrow> do fuel hhc e request)"

definition Post ::
  "nat \<Rightarrow> hystrixHTTPClient \<Rightarrow> env \<Rightarrow> string \<Rightarrow> bytes option \<Rightarrow>
   (Response \<times> goerror option) result \<times> world" where
  "Post fuel hhc e url reqBody =
     (let response = empty_Response in
      case http_NewRequest e ''POST'' url reqBody of
        Inl err \<Rightarrow>
          (Returns (response, Some (Wrap err ''POST - request creation failed'')),
           \<lparr>attempts = 0, trace = []\<rparr>)
      | Inr request \<Rightarrow> do fuel hhc e request)"

definition Put ::
  "nat \<Rightarrow> hystrixHTTPClient \<Rightarrow> env \<Rightarrow> string \<Rightarrow> bytes option \<Rightarrow>
   (Response \<times> goerror option) result \<times> world" where
  "Put fuel hhc e url reqBody =
     (let response = empty_Response in
      case http_NewRequest e ''PUT'' url reqBody of
        Inl err \<Rightarrow>
          (Returns (response, Some (Wrap err ''PUT - request creation failed'')),
           \<lparr>attempts = 0, trace = []\<rparr>)
      | Inr request \<Rightarrow> do fuel hhc e request)"

definition Patch ::
  "nat \<Rightarrow> hystrixHTTPClient \<Rightarrow> env \<Rightarrow> string \<Rightarrow> bytes option \<Rightarrow>
   (Response \<times> goerror option) result \<times> world" where
  "Patch fuel hhc e url reqBody =
     (let response = empty_Response in
      case http_NewRequest e ''PATCH'' url reqBody of
        Inl err \<Rightarrow>
          (Returns (response, Some (Wrap err ''PATCH - request creation failed'')),
           \<lparr>attempts = 0, trace = []\<rparr>)
      | Inr request \<Rightarrow> do fuel hhc e request)"

definition Delete ::
  "nat \<Rightarrow> hystrixHTTPClient \<Rightarrow> env \<Rightarrow> string \<Rightarrow> (Response \<times> goerror option) result \<times> world" where
  "Delete fuel hhc e url =
     (let response = empty_Response in
      case http_NewRequest e ''DELETE'' url None of
        Inl err \<Rightarrow>
          (Returns (response, Some (Wrap err ''DELETE - request creation failed'')),
           \<lparr>attempts = 0, trace = []\<rparr>)
      | Inr request \<Rightarrow> do fuel hhc e request)"

text \<open>
  The request as \<open>do\<close> hands it to the HTTP client, and the number of iterations that
  the loop condition allows from 0: \<open>retryCount + 1\<close>, or none for a negative count.
\<close>

abbreviation closed :: "Request \<Rightarrow> Request" where
  "closed request \<equiv> request\<lparr>Close := True\<rparr>"

abbreviation max_attempts :: "hystrixHTTPClient \<Rightarrow> nat" where
  "max_attempts hhc \<equiv> nat (sint (retryCount hhc) + 1)"

subsection \<open>Observations of a trace\<close>

text \<open>
  The requests handed to \<open>client.Do\<close>, the durations slept, the command names given
  to \<open>hystrix.Do\<close> and the values written to \<open>request.Close\<close>, each in order.
\<close>

fun client_calls :: "event list \<Rightarrow> Request list" where
  "client_calls [] = []"
| "client_calls (ClientDo r # evs) = r # client_calls evs"
| "client_calls (ev # evs) = client_calls evs"

fun sleeps :: "event list \<Rightarrow> duration list" where
  "sleeps [] = []"
| "sleeps (Sleep d # evs) = d # sleeps evs"
| "sleeps (ev # evs) = sleeps evs"

fun hystrix_calls :: "event list \<Rightarrow> string list" where
  "hystrix_calls [] = []"
| "hystrix_calls (HystrixDo name # evs) = name # hystrix_calls evs"
| "hystrix_calls (ev # evs) = hystrix_calls evs"

fun close_writes :: "event list \<Rightarrow> bool list" where
  "close_writes [] = []"
| "close_writes (SetClose b # evs) = b # close_writes evs"
| "close_writes (ev # evs) = close_writes evs"

subsection \<open>Outcomes of an attempt\<close>

text \<open>
  What the unit of work makes of an answer of \<open>client.Do\<close>. It fails when it returns
  an error: a transport error, an error while reading the body, or a status of 500 or
  more. It succeeds when the body was read to its end and the status is below 500. An
  answer with a nil body is neither: the unit of work panics on it.
\<close>

definition work_fails :: "goerror + http_Response \<Rightarrow> bool" where
  "work_fails r =
     (case r of
        Inl err \<Rightarrow> True
      | Inr response \<Rightarrow>
          (case Body response of
             None \<Rightarrow> False
           | Some rc \<Rightarrow> read_err rc \<noteq> None \<or> 500 \<le>s StatusCode response))"

definition work_succeeds :: "goerror + http_Response \<Rightarrow> bool" where
  "work_succeeds r =
     (case r of
        Inl err \<Rightarrow> False
      | Inr response \<Rightarrow>
          (case Body response of
             None \<Rightarrow> False
           | Some rc \<Rightarrow> read_err rc = None \<and> \<not> 500 \<le>s StatusCode response))"

text \<open>Attempt \<open>n\<close> fails: the breaker rejects it, or it admits it and the unit of work fails.\<close>

definition attempt_fails :: "env \<Rightarrow> string \<Rightarrow> Request \<Rightarrow> nat \<Rightarrow> bool" where
  "attempt_fails e name request n =
     (case admission e name n of
        Reject err \<Rightarrow> True
      | Admit \<Rightarrow> work_fails (transport e n request))"

text \<open>Attempt \<open>n\<close> receives no response: the breaker rejects it, or the transport fails.\<close>

definition no_response :: "env \<Rightarrow> string \<Rightarrow> Request \<Rightarrow> nat \<Rightarrow> bool" where
  "no_response e name request n =
     (case admission e name n of
        Reject err \<Rightarrow> True
      | Admit \<Rightarrow> (case transport e n request of Inl err \<Rightarrow> True | Inr response \<Rightarrow> False))"

text \<open>
  The state after the first \<open>k\<close> iterations of the loop, when each of them failed: the
  loop body (one attempt, then the back-off sleep) repeated \<open>k\<close> times from counter \<open>i\<close>.
\<close>

fun failed_attempts ::
  "nat \<Rightarrow> hystrixHTTPClient \<Rightarrow> env \<Rightarrow> Request \<Rightarrow> go_int \<Rightarrow> world \<times> Response \<Rightarrow> world \<times> Response" where
  "failed_attempts 0 hhc e request i s = s"
| "failed_attempts (Suc k) hhc e request i s =
     (case attempt hhc e request s of
        (r, w', hr') \<Rightarrow>
          failed_attempts k hhc e request (i + 1) (log (Sleep (retrier hhc i)) w', hr'))"

text \<open>The calls that \<open>k\<close> failed iterations make, from counter \<open>i\<close> and attempt \<open>n\<close> on.\<close>

fun failed_events :: "nat \<Rightarrow> hystrixHTTPClient \<Rightarrow> env \<Rightarrow> Request \<Rightarrow> go_int \<Rightarrow> nat \<Rightarrow> event list" where
  "failed_events 0 hhc e request i n = []"
| "failed_events (Suc k) hhc e request i n =
     HystrixDo (hystrixCommandName hhc) #
     (case admission e (hystrixCommandName hhc) n of
        Admit \<Rightarrow> [ClientDo request]
      | Reject err \<Rightarrow> []) @
     Sleep (retrier hhc i) # failed_events k hhc e request (i + 1) (Suc n)"


subsection \<open>Sample clients and environments\<close>

text \<open>
  Concrete inputs on which the theorems below are instantiated. \<open>sample_NewRequest\<close>
  refuses a URL that starts with a colon, as the URL parser behind \<open>http.NewRequest\<close>
  does (the scheme is missing), and builds the request otherwise.
\<close>

definition sample_config :: CommandConfig where
  "sample_config =
     \<lparr>Timeout = 1000, MaxConcurrentRequests = 100, RequestVolumeThreshold = 20,
      SleepWindow = 5000, ErrorPercentThreshold = 50\<rparr>"

definition sample_client :: hystrixHTTPClient where
  "sample_client = NewHystrixHTTPClient 10 sample_config"

definition sample_NewRequest :: "string \<Rightarrow> string \<Rightarrow> bytes option \<Rightarrow> goerror + Request" where
  "sample_NewRequest method url reqBody =
     (if take 1 url = '':'' then Inl (Err ''missing protocol scheme'')
      else Inr \<lparr>Method = method, URL = url, ReqBody = reqBody, Close = False\<rparr>)"

definition sample_env :: "(nat \<Rightarrow> admission) \<Rightarrow> (nat \<Rightarrow> goerror + http_Response) \<Rightarrow> env" where
  "sample_env adm answers =
     \<lparr>http_NewRequest = sample_NewRequest,
      admission = (\<lambda>name. adm),
      transport = (\<lambda>n request. answers n)\<rparr>"

definition refused :: "goerror + http_Response" where
  "refused = Inl (Err ''connection refused'')"

definition answer :: "go_int \<Rightarrow> bytes \<Rightarrow> goerror + http_Response" where
  "answer status content =
     Inr \<lparr>StatusCode = status, Body = Some \<lparr>read_data = content, read_err = None\<rparr>\<rparr>"

definition sample_request :: Request where
  "sample_request = \<lparr>Method = ''GET'', URL = ''http://localhost/'', ReqBody = None, Close = False\<rparr>"

text \<open>
  Environments in which every attempt is admitted and refused by the transport, or
  answered with a 503 or a 200; environments in which the breaker rejects every
  attempt; and the sample request as \<open>do\<close> hands it to the HTTP client.
\<close>

abbreviation refusing_env :: env where
  "refusing_env \<equiv> sample_env (\<lambda>n. Admit) (\<lambda>n. refused)"

abbreviation env_503 :: env where
  "env_503 \<equiv> sample_env (\<lambda>n. Admit) (\<lambda>n. answer 503 [1, 2, 3])"

abbreviation env_200 :: env where
  "env_200 \<equiv> sample_env (\<lambda>n. Admit) (\<lambda>n. answer 200 [])"

abbreviation saturated_env :: env where
  "saturated_env \<equiv> sample_env (\<lambda>n. Reject ErrMaxConcurrency) (\<lambda>n. answer 200 [])"

abbreviation open_env :: env where
  "open_env \<equiv> sample_env (\<lambda>n. Reject ErrCircuitOpen) (\<lambda>n. answer 200 [])"

abbreviation closed_request :: Request where
  "closed_request \<equiv> closed sample_request"

text \<open>The first attempt is answered with a 503 and a body, the later ones are refused.\<close>

definition first_503_then_refused :: "nat \<Rightarrow> goerror + http_Response" where
  "first_503_then_refused n = (if n = 0 then answer 503 [7, 8] else refused)"

text \<open>The first attempt is refused, the second is answered with a 502, the third with a 200.\<close>

definition third_time_lucky :: "nat \<Rightarrow> goerror + http_Response" where
  "third_time_lucky n =
     (if n = 0 then refused else if n = 1 then answer 502 [] else answer 200 [111, 107])"

text \<open>The second attempt is answered with a 204 whose body is nil, the others with a 500.\<close>

definition nil_body_at_second :: "nat \<Rightarrow> goerror + http_Response" where
  "nil_body_at_second n =
     (if n = 1 then Inr \<lparr>StatusCode = 204, Body = None\<rparr> else answer 500 [])"

section \<open>Auxiliary facts\<close>

subsection \<open>Traces, counters and single attempts\<close>

text \<open>
  The observations distribute over concatenation; the counter of the loop stays in
  range up to the retry count and leaves it right after, unless the retry count is the
  largest \<open>int\<close>; and the outcomes of an attempt defined above are those of the code:
  the unit of work fails when \<open>run\<close> returns an error, it succeeds when \<open>run\<close>
  returns nil, and an attempt fails when \<open>hystrix.Do\<close> returns an error.
\<close>

lemma client_calls_append: "client_calls (xs @ ys) = client_calls xs @ client_calls ys"
  by (induction xs rule: client_calls.induct) simp_all

lemma sleeps_append: "sleeps (xs @ ys) = sleeps xs @ sleeps ys"
  by (induction xs rule: sleeps.induct) simp_all

lemma hystrix_calls_append: "hystrix_calls (xs @ ys) = hystrix_calls xs @ hystrix_calls ys"
  by (induction xs rule: hystrix_calls.induct) simp_all

lemma close_writes_append: "close_writes (xs @ ys) = close_writes xs @ close_writes ys"
  by (induction xs rule: close_writes.induct) simp_all

lemma sle_MaxInt: "i \<le>s (0x7FFFFFFFFFFFFFFF :: 64 word)"
  using sint_less [of i] by (simp add: word_sle_eq)

lemma sint_of_nat_small: "n < 2 ^ 63 \<Longrightarrow> sint (of_nat n :: 64 word) = int n"
  by (simp add: signed_of_nat signed_take_bit_int_eq_self)

lemma nat_bound: "k < (2::int) ^ 63 \<Longrightarrow> j < nat k \<Longrightarrow> j < (2::nat) ^ 63"
proof -
  assume k: "k < (2::int) ^ 63" and j: "j < nat k"
  from j have "int j < k" by linarith
  with k have "int j < 2 ^ 63" by linarith
  then have "int j < int (2 ^ 63)" by simp
  then show ?thesis by (simp only: of_nat_less_iff)
qed

lemma loop_continue: "j < nat (sint N + 1) \<Longrightarrow> (of_nat j :: 64 word) \<le>s N"
proof -
  assume j: "j < nat (sint N + 1)"
  have "sint N < 2 ^ 63" using sint_less [of N] by simp
  then have "sint N + 1 < 2 ^ 63 \<or> sint N + 1 = 2 ^ 63" by linarith
  then have "j < 2 ^ 63"
  proof
    assume "sint N + 1 < 2 ^ 63" then show ?thesis using j by (rule nat_bound)
  next
    assume "sint N + 1 = 2 ^ 63" 
    with j have "j < nat (2 ^ 63)" by simp
    then show ?thesis by simp
  qed
  then have "sint (of_nat j :: 64 word) = int j" by (rule sint_of_nat_small)
  with j show ?thesis by (simp add: word_sle_eq)
qed

lemma loop_exit: 
  assumes "sint N < 2 ^ 63 - 1"
  shows "\<not> (of_nat (nat (sint N + 1)) :: 64 word) \<le>s N"
proof -
  have "sint N + 1 < 2 ^ 63" using assms by linarith
  then have "nat (sint N + 1) < nat (2 ^ 63)"
    by (simp add: nat_less_iff)
  then have "nat (sint N + 1) < 2 ^ 63" by simp
  then have "sint (of_nat (nat (sint N + 1)) :: 64 word) = int (nat (sint N + 1))"
    by (rule sint_of_nat_small)
  then show ?thesis by (simp add: word_sle_eq)
qed

lemma run_fails_iff:
  "work_fails (transport e (attempts w) rq) \<longleftrightarrow> (\<exists>err. fst (run e rq (w, hr)) = Done (Some err))"
  by (auto simp: work_fails_def run_def Let_def split: sum.splits option.splits)

lemma run_succeeds_iff:
  "work_succeeds (transport e (attempts w) rq) \<longleftrightarrow> fst (run e rq (w, hr)) = Done None"
  by (auto simp: work_succeeds_def run_def Let_def split: sum.splits option.splits)

lemma attempt_fails_iff:
  "attempt_fails e (hystrixCommandName hhc) rq (attempts w) \<longleftrightarrow>
   (\<exists>err. fst (attempt hhc e rq (w, hr)) = Done (Some err))"
  by (auto simp: attempt_fails_def work_fails_def attempt_def hystrix_Do_def tryFallback_def
      run_def Let_def log_def split: sum.splits option.splits admission.splits)

lemma attempt_attempts:
  "attempt hhc e rq (w, hr) = (Done r, w', hr') \<Longrightarrow> attempts w' = Suc (attempts w)"
  by (auto simp: attempt_def hystrix_Do_def tryFallback_def
      run_def Let_def log_def split: sum.splits option.splits admission.splits if_splits)

lemma attempt_trace:
  "attempt hhc e rq (w, hr) = (r, w', hr') \<Longrightarrow>
   trace w' = trace w @ HystrixDo (hystrixCommandName hhc) #
     (case admission e (hystrixCommandName hhc) (attempts w) of
        Admit \<Rightarrow> [ClientDo rq] | Reject err \<Rightarrow> [])"
  by (auto simp: attempt_def hystrix_Do_def tryFallback_def
      run_def Let_def log_def split: sum.splits option.splits admission.splits if_splits)

lemma attempt_no_response:
  "no_response e (hystrixCommandName hhc) rq (attempts w) \<Longrightarrow> attempt hhc e rq (w, hr) = (r, w', hr') \<Longrightarrow> hr' = hr"
  by (auto simp: no_response_def attempt_def hystrix_Do_def tryFallback_def
      run_def Let_def log_def split: sum.splits option.splits admission.splits if_splits)

lemma no_response_fails: "no_response e name rq n \<Longrightarrow> attempt_fails e name rq n"
  by (auto simp: no_response_def attempt_fails_def work_fails_def split: admission.splits sum.splits)

lemma log_simps [simp]: "attempts (log ev w) = attempts w" "trace (log ev w) = trace w @ [ev]"
  by (simp_all add: log_def)

lemma fails_shift:
  assumes "\<forall>j<Suc k. attempt_fails e name rq (n + j)"
  shows "\<forall>j<k. attempt_fails e name rq (Suc n + j)"
proof (intro allI impI)
  fix j assume "j < k"
  then have "Suc j < Suc k" by simp
  with assms have "attempt_fails e name rq (n + Suc j)" by blast
  then show "attempt_fails e name rq (Suc n + j)" by simp
qed

lemma failed_step:
  assumes "\<forall>j<Suc k. attempt_fails e (hystrixCommandName hhc) rq (attempts w + j)"
  shows "\<exists>err w' hr'. attempt hhc e rq (w, hr) = (Done (Some err), w', hr') \<and>
           attempts w' = Suc (attempts w) \<and>
           (\<forall>j<k. attempt_fails e (hystrixCommandName hhc) rq (attempts w' + j))"
proof -
  from assms have "attempt_fails e (hystrixCommandName hhc) rq (attempts w)"
    by (auto dest: spec [of _ 0])
  then obtain err w' hr' where a: "attempt hhc e rq (w, hr) = (Done (Some err), w', hr')"
    using attempt_fails_iff [of e hhc rq w hr] by (cases "attempt hhc e rq (w, hr)") auto
  then have n: "attempts w' = Suc (attempts w)" by (rule attempt_attempts)
  from fails_shift [OF assms] a n show ?thesis by simp
qed

lemma failed_attempts_attempts:
  "\<forall>j<k. attempt_fails e (hystrixCommandName hhc) rq (attempts (fst s) + j) \<Longrightarrow>
   attempts (fst (failed_attempts k hhc e rq i s)) = attempts (fst s) + k"
proof (induction k arbitrary: i s)
  case (Suc k)
  obtain w hr where s: "s = (w, hr)" by (cases s)
  from failed_step [of k e hhc rq w hr] Suc.prems obtain err w' hr' where
    a: "attempt hhc e rq (w, hr) = (Done (Some err), w', hr')" and
    n: "attempts w' = Suc (attempts w)" and
    f: "\<forall>j<k. attempt_fails e (hystrixCommandName hhc) rq (attempts w' + j)"
    unfolding s by auto
  from Suc.IH [of "(log (Sleep (retrier hhc i)) w', hr')" "i + 1"] f show ?case
    by (simp add: s a n)
qed simp

lemma do_loop_failed_attempts:
  assumes "\<forall>j<k. attempt_fails e (hystrixCommandName hhc) rq (attempts (fst s) + j)"
      and "\<forall>j<k. i + of_nat j \<le>s retryCount hhc"
  shows "do_loop (k + fuel) hhc e rq i s =
         do_loop fuel hhc e rq (i + of_nat k) (failed_attempts k hhc e rq i s)"
  using assms
proof (induction k arbitrary: i s)
  case (Suc k)
  obtain w hr where s: "s = (w, hr)" by (cases s)
  from failed_step [of k e hhc rq w hr] Suc.prems(1) obtain err w' hr' where
    a: "attempt hhc e rq (w, hr) = (Done (Some err), w', hr')" and
    f: "\<forall>j<k. attempt_fails e (hystrixCommandName hhc) rq (attempts w' + j)"
    unfolding s by auto
  from Suc.prems(2) have i0: "i \<le>s retryCount hhc" by (auto dest: spec [of _ 0])
  have c: "\<forall>j<k. (i + 1) + of_nat j \<le>s retryCount hhc"
  proof (intro allI impI)
    fix j assume "j < k"
    with Suc.prems(2) have "i + of_nat (Suc j) \<le>s retryCount hhc" by auto
    then show "(i + 1) + of_nat j \<le>s retryCount hhc" by (simp add: add.commute add.left_commute)
  qed
  from Suc.IH [of "(log (Sleep (retrier hhc i)) w', hr')" "i + 1"] f c i0 show ?case
    by (simp add: s a add.commute add.left_commute)
qed simp

lemma failed_attempts_trace:
  "\<forall>j<k. attempt_fails e (hystrixCommandName hhc) rq (attempts (fst s) + j) \<Longrightarrow>
   trace (fst (failed_attempts k hhc e rq i s)) =
   trace (fst s) @ failed_events k hhc e rq i (attempts (fst s))"
proof (induction k arbitrary: i s)
  case (Suc k)
  obtain w hr where s: "s = (w, hr)" by (cases s)
  from failed_step [of k e hhc rq w hr] Suc.prems obtain err w' hr' where
    a: "attempt hhc e rq (w, hr) = (Done (Some err), w', hr')" and
    n: "attempts w' = Suc (attempts w)" and
    f: "\<forall>j<k. attempt_fails e (hystrixCommandName hhc) rq (attempts w' + j)"
    unfolding s by auto
  from Suc.IH [of "(log (Sleep (retrier hhc i)) w', hr')" "i + 1"] f show ?case
    by (simp add: s a n attempt_trace [OF a])
qed simp

lemma failed_attempts_no_response:
  "\<forall>j<k. no_response e (hystrixCommandName hhc) rq (attempts (fst s) + j) \<Longrightarrow>
   snd (failed_attempts k hhc e rq i s) = snd s"
proof (induction k arbitrary: i s)
  case (Suc k)
  obtain w hr where s: "s = (w, hr)" by (cases s)
  from Suc.prems have nr: "no_response e (hystrixCommandName hhc) rq (attempts w)"
    by (auto simp: s dest: spec [of _ 0])
  from Suc.prems have "\<forall>j<Suc k. attempt_fails e (hystrixCommandName hhc) rq (attempts w + j)"
    by (auto simp: s intro: no_response_fails)
  from failed_step [OF this, of hr] obtain err w' hr' where
    a: "attempt hhc e rq (w, hr) = (Done (Some err), w', hr')" and
    n: "attempts w' = Suc (attempts w)"
    by auto
  have "\<forall>j<k. no_response e (hystrixCommandName hhc) rq (attempts w' + j)"
  proof (intro allI impI)
    fix j assume "j < k"
    with Suc.prems have "no_response e (hystrixCommandName hhc) rq (attempts (fst s) + Suc j)" by auto
    then show "no_response e (hystrixCommandName hhc) rq (attempts w' + j)" by (simp add: s n)
  qed
  with Suc.IH [of "(log (Sleep (retrier hhc i)) w', hr')" "i + 1"] attempt_no_response [OF nr a]
  show ?case by (simp add: s a)
qed simp

lemma hystrix_calls_failed_events:
  "hystrix_calls (failed_events k hhc e rq i n) = replicate k (hystrixCommandName hhc)"
  by (induction k arbitrary: i n) (simp_all add: hystrix_calls_append split: admission.splits)

lemma sleeps_failed_events:
  "length (sleeps (failed_events k hhc e rq i n)) = k"
  by (induction k arbitrary: i n) (simp_all add: sleeps_append split: admission.splits)

lemma close_writes_failed_events:
  "close_writes (failed_events k hhc e rq i n) = []"
  by (induction k arbitrary: i n) (simp_all add: close_writes_append split: admission.splits)

lemma client_calls_failed_events_admitted:
  "\<forall>j<k. admission e (hystrixCommandName hhc) (n + j) = Admit \<Longrightarrow>
   client_calls (failed_events k hhc e rq i n) = replicate k rq"
proof (induction k arbitrary: i n)
  case 0
  then show ?case by simp
next
  case (Suc k)
  from Suc.prems have a0: "admission e (hystrixCommandName hhc) n = Admit"
    by (auto dest: spec [of _ 0])
  have "\<forall>j<k. admission e (hystrixCommandName hhc) (Suc n + j) = Admit"
  proof (intro allI impI)
    fix j assume "j < k"
    then have "Suc j < Suc k" by simp
    with Suc.prems have "admission e (hystrixCommandName hhc) (n + Suc j) = Admit" by blast
    then show "admission e (hystrixCommandName hhc) (Suc n + j) = Admit" by simp
  qed
  from Suc.IH [OF this] show ?case by (simp add: a0)
qed

lemma client_calls_failed_events_rejected:
  "\<forall>j<k. admission e (hystrixCommandName hhc) (n + j) \<noteq> Admit \<Longrightarrow>
   client_calls (failed_events k hhc e rq i n) = []"
proof (induction k arbitrary: i n)
  case 0
  then show ?case by simp
next
  case (Suc k)
  from Suc.prems have a0: "admission e (hystrixCommandName hhc) n \<noteq> Admit"
    by (auto dest: spec [of _ 0])
  have "\<forall>j<k. admission e (hystrixCommandName hhc) (Suc n + j) \<noteq> Admit"
  proof (intro allI impI)
    fix j assume "j < k"
    then have "Suc j < Suc k" by simp
    with Suc.prems have "admission e (hystrixCommandName hhc) (n + Suc j) \<noteq> Admit" by blast
    then show "admission e (hystrixCommandName hhc) (Suc n + j) \<noteq> Admit" by simp
  qed
  from Suc.IH [OF this] show ?case using a0 by (simp split: admission.splits)
qed

subsection \<open>The loop\<close>

text \<open>
  The loop runs through a prefix of failed attempts as \<open>failed_attempts\<close> does; when
  all the attempts that the retry count allows fail, it ends with their state and a nil
  error. It never returns an error, it panics only on a nil body, and it writes only
  attempts and sleeps into the trace.
\<close>

lemma sint_MaxInt: "sint MaxInt = 2 ^ 63 - 1"
  by (simp add: MaxInt_def)

lemma below_MaxInt: "N <s MaxInt \<Longrightarrow> sint N < 2 ^ 63 - 1"
  by (simp add: word_sless_alt sint_MaxInt)

lemma failed_attempts_add:
  "failed_attempts (a + b) hhc e rq i s =
   failed_attempts b hhc e rq (i + of_nat a) (failed_attempts a hhc e rq i s)"
proof (induction a arbitrary: i s)
  case 0
  then show ?case by simp
next
  case (Suc a)
  obtain r w' hr' where a: "attempt hhc e rq s = (r, w', hr')"
    by (cases "attempt hhc e rq s") auto
  show ?case
    by (simp add: a Suc.IH add.commute add.left_commute)
qed

lemma do_exhausted:
  assumes N: "retryCount hhc <s MaxInt"
      and f: "\<forall>j < max_attempts hhc.
                attempt_fails e (hystrixCommandName hhc) rq (attempts (fst s) + j)"
      and fuel: "max_attempts hhc < fuel"
  shows "do_loop fuel hhc e rq 0 s =
         (Returns (snd (failed_attempts (max_attempts hhc) hhc e rq 0 s), None),
          fst (failed_attempts (max_attempts hhc) hhc e rq 0 s))"
proof -
  define K where "K = max_attempts hhc"
  have "K < fuel" using fuel unfolding K_def .
  then obtain m0 where "fuel = Suc (K + m0)" by (auto dest: less_imp_Suc_add)
  then have m: "fuel = K + Suc m0" by simp
  have f': "\<forall>j<K. attempt_fails e (hystrixCommandName hhc) rq (attempts (fst s) + j)"
    using f unfolding K_def .
  have c: "\<forall>j<K. 0 + of_nat j \<le>s retryCount hhc"
  proof (intro allI impI)
    fix j assume "j < K"
    then have "(of_nat j :: 64 word) \<le>s retryCount hhc"
      unfolding K_def by (rule loop_continue)
    then show "0 + of_nat j \<le>s retryCount hhc" by simp
  qed
  obtain w hr where s': "failed_attempts K hhc e rq 0 s = (w, hr)"
    by (cases "failed_attempts K hhc e rq 0 s")
  have x: "\<not> (of_nat K :: 64 word) \<le>s retryCount hhc"
    unfolding K_def using below_MaxInt [OF N] by (rule loop_exit)
  have "do_loop fuel hhc e rq 0 s = do_loop (Suc m0) hhc e rq (0 + of_nat K) (failed_attempts K hhc e rq 0 s)"
    unfolding m by (rule do_loop_failed_attempts [OF f' c])
  also have "\<dots> = do_loop (Suc m0) hhc e rq (of_nat K) (w, hr)"
    by (simp add: s')
  also have "\<dots> = (Returns (hr, None), w)"
    using x by simp
  finally show ?thesis unfolding K_def [symmetric] by (simp add: s')
qed

lemma do_loop_never_exits:
  assumes "retryCount hhc = MaxInt"
      and "\<forall>n. attempt_fails e (hystrixCommandName hhc) rq n"
  shows "fst (do_loop fuel hhc e rq i s) = OutOfFuel"
proof (induction fuel arbitrary: i s)
  case 0
  then show ?case by (cases s) simp
next
  case (Suc fuel)
  obtain w hr where s: "s = (w, hr)" by (cases s)
  from assms(2) have "attempt_fails e (hystrixCommandName hhc) rq (attempts w)" by blast
  then obtain err where "fst (attempt hhc e rq (w, hr)) = Done (Some err)"
    using attempt_fails_iff [of e hhc rq w hr] by auto
  then obtain w' hr' where a: "attempt hhc e rq (w, hr) = (Done (Some err), w', hr')"
    by (cases "attempt hhc e rq (w, hr)") auto
  have "i \<le>s retryCount hhc"
    unfolding assms(1) MaxInt_def by (rule sle_MaxInt)
  then show ?case by (simp add: s a Suc.IH)
qed

lemma do_loop_error_nil:
  "do_loop fuel hhc e rq i s = (Returns (hr, err), w) \<Longrightarrow> err = None"
proof (induction fuel arbitrary: i s)
  case 0
  then show ?case by (cases s) simp
next
  case (Suc fuel)
  obtain w0 hr0 where s: "s = (w0, hr0)" by (cases s)
  obtain r w' hr' where a: "attempt hhc e rq (w0, hr0) = (r, w', hr')"
    by (cases "attempt hhc e rq (w0, hr0)") auto
  show ?case
  proof (cases "i \<le>s retryCount hhc")
    case False
    with Suc.prems show ?thesis by (simp add: s)
  next
    case True
    show ?thesis
    proof (cases r)
      case Panic
      with Suc.prems True show ?thesis by (simp add: s a)
    next
      case (Done x)
      show ?thesis
      proof (cases x)
        case None
        with Suc.prems True Done show ?thesis by (simp add: s a)
      next
        case (Some err')
        with Suc.prems True Done have
          "do_loop fuel hhc e rq (i + 1) (log (Sleep (retrier hhc i)) w', hr') = (Returns (hr, err), w)"
          by (simp add: s a)
        then show ?thesis by (rule Suc.IH)
      qed
    qed
  qed
qed


lemma attempt_nil_body:
  assumes "admission e (hystrixCommandName hhc) (attempts w) = Admit"
      and "transport e (attempts w) rq = Inr resp" and "Body resp = None"
  shows "fst (attempt hhc e rq (w, hr)) = Panic"
  using assms
  by (auto simp: attempt_def hystrix_Do_def tryFallback_def
      run_def Let_def log_def split: sum.splits option.splits admission.splits)

lemma attempt_Panic:
  assumes "fst (attempt hhc e rq (w, hr)) = Panic"
  shows "\<exists>resp. transport e (attempts w) rq = Inr resp \<and> Body resp = None"
  using assms
  by (auto simp: attempt_def hystrix_Do_def tryFallback_def
      run_def Let_def log_def split: sum.splits option.splits admission.splits if_splits)

lemma do_loop_no_panic:
  assumes "\<forall>n r resp. transport e n r = Inr resp \<longrightarrow> Body resp \<noteq> None"
  shows "fst (do_loop fuel hhc e rq i s) \<noteq> Panics"
proof (induction fuel arbitrary: i s)
  case 0
  then show ?case by (cases s) simp
next
  case (Suc fuel)
  obtain w hr where s: "s = (w, hr)" by (cases s)
  obtain r w' hr' where a: "attempt hhc e rq (w, hr) = (r, w', hr')"
    by (cases "attempt hhc e rq (w, hr)") auto
  have "r \<noteq> Panic"
  proof
    assume "r = Panic"
    then have "fst (attempt hhc e rq (w, hr)) = Panic" by (simp add: a)
    then obtain resp where "transport e (attempts w) rq = Inr resp" and "Body resp = None"
      using attempt_Panic by blast
    with assms show False by blast
  qed
  show ?case
  proof (cases "i \<le>s retryCount hhc")
    case False
    then show ?thesis by (simp add: s)
  next
    case True
    show ?thesis
    proof (cases r)
      case Panic
      with \<open>r \<noteq> Panic\<close> show ?thesis by simp
    next
      case (Done x)
      show ?thesis
      proof (cases x)
        case None
        with True Done show ?thesis by (simp add: s a)
      next
        case (Some err')
        with True Done have
          "do_loop (Suc fuel) hhc e rq i s =
           do_loop fuel hhc e rq (i + 1) (log (Sleep (retrier hhc i)) w', hr')"
          by (simp add: s a)
        then show ?thesis by (simp only: Suc.IH not_False_eq_True)
      qed
    qed
  qed
qed

lemma do_loop_trace:
  "\<exists>evs n. trace (snd (do_loop fuel hhc e rq i s)) = trace (fst s) @ evs \<and>
     close_writes evs = [] \<and> client_calls evs = replicate n rq"
proof (induction fuel arbitrary: i s)
  case 0
  then show ?case by (cases s) simp
next
  case (Suc fuel)
  obtain w hr where s: "s = (w, hr)" by (cases s)
  obtain r w' hr' where a: "attempt hhc e rq (w, hr) = (r, w', hr')"
    by (cases "attempt hhc e rq (w, hr)") auto
  note t = attempt_trace [OF a]
  define step where "step = HystrixDo (hystrixCommandName hhc) #
     (case admission e (hystrixCommandName hhc) (attempts w) of
        Admit \<Rightarrow> [ClientDo rq] | Reject err \<Rightarrow> [])"
  have t': "trace w' = trace w @ step" by (simp add: t step_def)
  have cw: "close_writes step = []" by (simp add: step_def split: admission.splits)
  obtain n0 where cc: "client_calls step = replicate n0 rq"
  proof (cases "admission e (hystrixCommandName hhc) (attempts w)")
    case Admit
    then have "client_calls step = replicate 1 rq" by (simp add: step_def)
    then show ?thesis by (rule that)
  next
    case (Reject err)
    then have "client_calls step = replicate 0 rq" by (simp add: step_def)
    then show ?thesis by (rule that)
  qed
  show ?case
  proof (cases "i \<le>s retryCount hhc")
    case False
    then show ?thesis by (simp add: s)
  next
    case True
    show ?thesis
    proof (cases r)
      case Panic
      then have "trace (snd (do_loop (Suc fuel) hhc e rq i s)) = trace (fst s) @ step"
        using True by (simp add: s a t')
      then show ?thesis using cw cc by blast
    next
      case (Done x)
      show ?thesis
      proof (cases x)
        case None
        then have "trace (snd (do_loop (Suc fuel) hhc e rq i s)) = trace (fst s) @ step"
          using True Done by (simp add: s a t')
        then show ?thesis using cw cc by blast
      next
        case (Some err)
        let ?s' = "(log (Sleep (retrier hhc i)) w', hr')"
        from Suc.IH [of "i + 1" ?s'] obtain evs n where
          e1: "trace (snd (do_loop fuel hhc e rq (i + 1) ?s')) = trace (fst ?s') @ evs"
          and e2: "close_writes evs = []" and e3: "client_calls evs = replicate n rq"
          by blast
        have "do_loop (Suc fuel) hhc e rq i s = do_loop fuel hhc e rq (i + 1) ?s'"
          using True Done Some by (simp add: s a)
        then have "trace (snd (do_loop (Suc fuel) hhc e rq i s)) = trace (fst ?s') @ evs"
          by (simp only: e1)
        also have "trace (fst ?s') = trace w @ step @ [Sleep (retrier hhc i)]"
          by (simp add: log_def t')
        finally have "trace (snd (do_loop (Suc fuel) hhc e rq i s)) =
              trace (fst s) @ (step @ Sleep (retrier hhc i) # evs)"
          by (simp add: s)
        moreover have "close_writes (step @ Sleep (retrier hhc i) # evs) = []"
          by (simp add: close_writes_append cw e2)
        moreover have "client_calls (step @ Sleep (retrier hhc i) # evs) = replicate (n0 + n) rq"
          by (simp add: client_calls_append cc e3 replicate_add)
        ultimately show ?thesis by blast
      qed
    qed
  qed
qed

lemma retryCount_SetRetryCount: "retryCount (SetRetryCount hhc N) = N"
  by (simp add: SetRetryCount_def)

lemma name_SetRetryCount: "hystrixCommandName (SetRetryCount hhc N) = hystrixCommandName hhc"
  by (simp add: SetRetryCount_def)

lemma do_exhausted_result:
  assumes N: "retryCount hhc <s MaxInt"
      and f: "\<forall>j < max_attempts hhc.
                attempt_fails e (hystrixCommandName hhc) (closed request) j"
      and fuel: "max_attempts hhc < fuel"
  shows "\<exists>w hr. do fuel hhc e request = (Returns (hr, None), w) \<and>
           (w, hr) = failed_attempts (max_attempts hhc) hhc e (closed request) 0
                       (\<lparr>attempts = 0, trace = [SetClose True]\<rparr>, empty_Response) \<and>
           attempts w = max_attempts hhc \<and>
           trace w = SetClose True #
             failed_events (max_attempts hhc) hhc e (closed request) 0 0"
proof -
  let ?rq = "closed request"
  let ?s = "(\<lparr>attempts = 0, trace = [SetClose True]\<rparr>, empty_Response)"
  let ?K = "max_attempts hhc"
  have f': "\<forall>j < ?K. attempt_fails e (hystrixCommandName hhc) ?rq (attempts (fst ?s) + j)"
    using f by simp
  obtain w hr where s': "failed_attempts ?K hhc e ?rq 0 ?s = (w, hr)"
    by (cases "failed_attempts ?K hhc e ?rq 0 ?s")
  have "do fuel hhc e request = do_loop fuel hhc e ?rq 0 ?s"
    by (simp add: do_def)
  also have "\<dots> = (Returns (hr, None), w)"
    using do_exhausted [OF N f' fuel] by (simp only: s' fst_conv snd_conv)
  finally have 1: "do fuel hhc e request = (Returns (hr, None), w)" .
  have 2: "attempts w = ?K"
    using failed_attempts_attempts [OF f', of 0] by (simp only: s' fst_conv) simp
  have 3: "trace w = SetClose True # failed_events ?K hhc e ?rq 0 0"
    using failed_attempts_trace [OF f', of 0] by (simp only: s' fst_conv) simp
  show ?thesis using 1 2 3 s' by simp
qed

lemma attempt_recorded:
  assumes "admission e (hystrixCommandName hhc) (attempts w) = Admit"
      and "transport e (attempts w) rq = Inr resp" and "Body resp = Some rc"
      and "read_err rc = None"
  shows "snd (snd (attempt hhc e rq (w, hr))) =
         \<lparr>statusCode = StatusCode resp, body = read_data rc\<rparr>"
  using assms
  by (simp add: attempt_def hystrix_Do_def tryFallback_def run_def Let_def log_def)

lemma failed_attempts_last:
  assumes f: "\<forall>j<k. attempt_fails e (hystrixCommandName hhc) rq (attempts (fst s) + j)"
      and "admission e (hystrixCommandName hhc) (attempts (fst s) + k) = Admit"
      and "transport e (attempts (fst s) + k) rq = Inr resp" and "Body resp = Some rc"
      and "read_err rc = None"
  shows "snd (failed_attempts (Suc k) hhc e rq i s) =
         \<lparr>statusCode = StatusCode resp, body = read_data rc\<rparr>"
proof -
  obtain w hr where s': "failed_attempts k hhc e rq i s = (w, hr)"
    by (cases "failed_attempts k hhc e rq i s")
  have n: "attempts w = attempts (fst s) + k"
    using failed_attempts_attempts [OF f, of i] by (simp add: s')
  obtain r w' hr' where a: "attempt hhc e rq (w, hr) = (r, w', hr')"
    by (cases "attempt hhc e rq (w, hr)") auto
  have "hr' = \<lparr>statusCode = StatusCode resp, body = read_data rc\<rparr>"
    using attempt_recorded [of e hhc w rq resp rc hr] assms(2-5) by (simp add: n a)
  moreover have "failed_attempts (Suc k) hhc e rq i s =
        failed_attempts (Suc 0) hhc e rq (i + of_nat k) (failed_attempts k hhc e rq i s)"
    using failed_attempts_add [of k "Suc 0" hhc e rq i s] by simp
  ultimately show ?thesis by (simp add: s' a)
qed

lemma rejected_no_response:
  "admission e name n = Reject err \<Longrightarrow> no_response e name rq n"
  by (simp add: no_response_def)

lemma counter_in_range:
  assumes "int k \<le> sint (N :: 64 word)" and "j \<le> k"
  shows "0 + (of_nat j :: 64 word) \<le>s N"
proof -
  have "j < nat (sint N + 1)" using assms by linarith
  then have "(of_nat j :: 64 word) \<le>s N" by (rule loop_continue)
  then show ?thesis by simp
qed

lemma do_reaches_attempt:
  assumes f: "\<forall>j<k. attempt_fails e (hystrixCommandName hhc) (closed request) j"
      and k: "int k \<le> sint (retryCount hhc)"
  shows "\<exists>w hr. do (k + Suc m) hhc e request =
             do_loop (Suc m) hhc e (closed request) (of_nat k) (w, hr) \<and>
           of_nat k \<le>s retryCount hhc \<and>
           attempts w = k \<and>
           trace w = SetClose True # failed_events k hhc e (closed request) 0 0"
proof -
  let ?rq = "closed request"
  let ?s = "(\<lparr>attempts = 0, trace = [SetClose True]\<rparr>, empty_Response)"
  have f': "\<forall>j<k. attempt_fails e (hystrixCommandName hhc) ?rq (attempts (fst ?s) + j)"
    using f by simp
  have c: "\<forall>j<k. 0 + of_nat j \<le>s retryCount hhc"
    using counter_in_range [OF k] by simp
  have ck: "(of_nat k :: 64 word) \<le>s retryCount hhc"
    using counter_in_range [OF k, of k] by simp
  obtain w hr where s': "failed_attempts k hhc e ?rq 0 ?s = (w, hr)"
    by (cases "failed_attempts k hhc e ?rq 0 ?s")
  have "do (k + Suc m) hhc e request = do_loop (k + Suc m) hhc e ?rq 0 ?s"
    by (simp only: do_def Let_def)
  also have "\<dots> = do_loop (Suc m) hhc e ?rq (0 + of_nat k) (failed_attempts k hhc e ?rq 0 ?s)"
    by (rule do_loop_failed_attempts [OF f' c])
  finally have 1: "do (k + Suc m) hhc e request = do_loop (Suc m) hhc e ?rq (of_nat k) (w, hr)"
    by (simp add: s')
  have 2: "attempts w = k"
    using failed_attempts_attempts [OF f', of 0] by (simp add: s')
  have 3: "trace w = SetClose True # failed_events k hhc e ?rq 0 0"
    using failed_attempts_trace [OF f', of 0] by (simp add: s')
  from 1 2 3 ck show ?thesis by blast
qed

section \<open>The claims\<close>

text \<open>
  C5. When \<open>http.NewRequest\<close> fails for the URL, each of \<open>Get\<close>, \<open>Post\<close>, \<open>Put\<close>,
  \<open>Patch\<close> and \<open>Delete\<close> returns the empty \<open>Response\<close> and the wrapped error at
  once: the trace is empty, so the breaker was not invoked and no attempt was made, and
  the result does not depend on the fuel, not even on there being any, so the loop was
  not entered.
\<close>

theorem request_creation_failure:
  "(http_NewRequest e ''GET'' url None = Inl err1 \<longrightarrow>
      Get fuel hhc e url =
        (Returns (empty_Response, Some (Wrap err1 ''GET - request creation failed'')),
         \<lparr>attempts = 0, trace = []\<rparr>)) \<and>
   (http_NewRequest e ''POST'' url reqBody = Inl err2 \<longrightarrow>
      Post fuel hhc e url reqBody =
        (Returns (empty_Response, Some (Wrap err2 ''POST - request creation failed'')),
         \<lparr>attempts = 0, trace = []\<rparr>)) \<and>
   (http_NewRequest e ''PUT'' url reqBody = Inl err3 \<longrightarrow>
      Put fuel hhc e url reqBody =
        (Returns (empty_Response, Some (Wrap err3 ''PUT - request creation failed'')),
         \<lparr>attempts = 0, trace = []\<rparr>)) \<and>
   (http_NewRequest e ''PATCH'' url reqBody = Inl err4 \<longrightarrow>
      Patch fuel hhc e url reqBody =
        (Returns (empty_Response, Some (Wrap err4 ''PATCH - request creation failed'')),
         \<lparr>attempts = 0, trace = []\<rparr>)) \<and>
   (http_NewRequest e ''DELETE'' url None = Inl err5 \<longrightarrow>
      Delete fuel hhc e url =
        (Returns (empty_Response, Some (Wrap err5 ''DELETE - request creation failed'')),
         \<lparr>attempts = 0, trace = []\<rparr>))"
  by (simp add: Get_def Post_def Put_def Patch_def Delete_def)

theorem request_creation_failure_witness:
  "http_NewRequest env_200 ''PATCH'' '':80/x'' (Some [1, 2]) =
     Inl (Err ''missing protocol scheme'') \<and>
   Get 0 sample_client env_200 '':80/x'' =
     (Returns (empty_Response,
        Some (Wrap (Err ''missing protocol scheme'') ''GET - request creation failed'')),
      \<lparr>attempts = 0, trace = []\<rparr>) \<and>
   Post 0 sample_client env_200 '':80/x'' (Some [1, 2]) =
     (Returns (empty_Response,
        Some (Wrap (Err ''missing protocol scheme'') ''POST - request creation failed'')),
      \<lparr>attempts = 0, trace = []\<rparr>) \<and>
   Put 0 sample_client env_200 '':80/x'' (Some [1, 2]) =
     (Returns (empty_Response,
        Some (Wrap (Err ''missing protocol scheme'') ''PUT - request creation failed'')),
      \<lparr>attempts = 0, trace = []\<rparr>) \<and>
   Patch 0 sample_client env_200 '':80/x'' (Some [1, 2]) =
     (Returns (empty_Response,
        Some (Wrap (Err ''missing protocol scheme'') ''PATCH - request creation failed'')),
      \<lparr>attempts = 0, trace = []\<rparr>) \<and>
   Delete 0 sample_client env_200 '':80/x'' =
     (Returns (empty_Response,
        Some (Wrap (Err ''missing protocol scheme'') ''DELETE - request creation failed'')),
      \<lparr>attempts = 0, trace = []\<rparr>)"
proof -
  let ?e = "env_200"
  have f: "\<And>m b. http_NewRequest ?e m '':80/x'' b = Inl (Err ''missing protocol scheme'')"
    by (simp add: sample_env_def sample_NewRequest_def)
  show ?thesis
    using request_creation_failure [of ?e "'':80/x''" "Err ''missing protocol scheme''" 0 sample_client
        "Some [1, 2]" "Err ''missing protocol scheme''" "Err ''missing protocol scheme''"
        "Err ''missing protocol scheme''" "Err ''missing protocol scheme''"]
    by (simp add: f)
qed

text \<open>
  C1, as amended. A retry count \<open>N\<close> with \<open>0 \<le> N\<close>, set by \<open>SetRetryCount\<close>, and a unit of work that
  is admitted and fails at every attempt: \<open>do\<close> returns after exactly \<open>N + 1\<close>
  invocations of \<open>hystrix.Do\<close> and of the HTTP call, provided that \<open>N\<close> is below the
  largest \<open>int\<close>. The theorem after its witness shows that the bound is needed: with
  \<open>N = MaxInt\<close> the condition \<open>i <= retryCount\<close> holds for every \<open>int\<close>, the counter
  wraps, and \<open>do\<close> never returns.
\<close>

theorem failing_work_is_attempted_N_plus_1_times:
  assumes "0 \<le>s N" and "N <s MaxInt"
      and "\<forall>n. admission e (hystrixCommandName hhc) n = Admit \<and>
               work_fails (transport e n (closed request))"
      and "nat (sint N) + 1 < fuel"
  shows "\<exists>hr w. do fuel (SetRetryCount hhc N) e request = (Returns (hr, None), w) \<and>
           client_calls (trace w) = replicate (nat (sint N) + 1) (closed request) \<and>
           hystrix_calls (trace w) = replicate (nat (sint N) + 1) (hystrixCommandName hhc)"
proof -
  let ?hhc = "SetRetryCount hhc N"
  let ?rq = "closed request"
  have K: "max_attempts ?hhc = nat (sint N) + 1"
    using assms(1) by (simp add: retryCount_SetRetryCount word_sle_eq nat_add_distrib)
  have N: "retryCount ?hhc <s MaxInt"
    using assms(2) by (simp add: retryCount_SetRetryCount)
  have f: "\<forall>j < max_attempts ?hhc. attempt_fails e (hystrixCommandName ?hhc) ?rq j"
    using assms(3) by (simp add: attempt_fails_def name_SetRetryCount)
  have fuel: "max_attempts ?hhc < fuel"
    using assms(4) by (simp only: K)
  from do_exhausted_result [OF N f fuel] obtain w hr where
    1: "do fuel ?hhc e request = (Returns (hr, None), w)" and
    2: "trace w = SetClose True # failed_events (nat (sint N) + 1) ?hhc e ?rq 0 0"
    unfolding K by blast
  have a: "\<forall>j < nat (sint N) + 1. admission e (hystrixCommandName ?hhc) (0 + j) = Admit"
    using assms(3) by (simp add: name_SetRetryCount)
  have 3: "client_calls (trace w) = replicate (nat (sint N) + 1) ?rq"
    unfolding 2 using client_calls_failed_events_admitted [OF a, of ?rq 0] by simp
  have 4: "hystrix_calls (trace w) = replicate (nat (sint N) + 1) (hystrixCommandName hhc)"
    unfolding 2 using hystrix_calls_failed_events [of "nat (sint N) + 1" ?hhc e ?rq 0 0]
    by (simp add: name_SetRetryCount)
  from 1 3 4 show ?thesis by blast
qed

theorem failing_work_is_attempted_N_plus_1_times_witness:
  "(0 :: go_int) \<le>s 2 \<and> (2 :: go_int) <s MaxInt \<and>
   (\<exists>hr w. do 4 (SetRetryCount sample_client 2) refusing_env sample_request =
        (Returns (hr, None), w) \<and>
      client_calls (trace w) = replicate 3 closed_request \<and>
      hystrix_calls (trace w) = replicate 3 ''default'')"
proof -
  let ?e = "refusing_env"
  have h1: "(0 :: go_int) \<le>s 2" by (simp add: word_sle_eq)
  have h2: "(2 :: go_int) <s MaxInt" by (simp add: word_sless_alt MaxInt_def)
  have h3: "\<forall>n. admission ?e (hystrixCommandName sample_client) n = Admit \<and>
               work_fails (transport ?e n closed_request)"
    by (simp add: sample_env_def refused_def work_fails_def)
  have h4: "nat (sint (2 :: go_int)) + 1 < 4" by simp
  have n: "hystrixCommandName sample_client = ''default''"
    by (simp add: sample_client_def NewHystrixHTTPClient_def)
  show ?thesis
    using failing_work_is_attempted_N_plus_1_times [OF h1 h2 h3 h4] h1 h2
    by (simp add: n)
qed

theorem retry_count_MaxInt_never_returns:
  "(0 :: go_int) \<le>s MaxInt \<and>
   (\<forall>n. admission refusing_env (hystrixCommandName sample_client) n = Admit \<and>
        work_fails (transport refusing_env n closed_request)) \<and>
   (\<forall>fuel. fst (do fuel (SetRetryCount sample_client MaxInt) refusing_env
        sample_request) = OutOfFuel)"
proof -
  let ?e = "refusing_env"
  let ?hhc = "SetRetryCount sample_client MaxInt"
  have h1: "(0 :: go_int) \<le>s MaxInt" by (simp add: word_sle_eq MaxInt_def)
  have h3: "\<forall>n. admission ?e (hystrixCommandName sample_client) n = Admit \<and>
               work_fails (transport ?e n closed_request)"
    by (simp add: sample_env_def refused_def work_fails_def)
  have f: "\<forall>n. attempt_fails ?e (hystrixCommandName ?hhc) closed_request n"
    using h3 by (simp add: attempt_fails_def name_SetRetryCount)
  have "\<forall>fuel. fst (do fuel ?hhc ?e sample_request) = OutOfFuel"
    unfolding do_def Let_def
    using do_loop_never_exits [OF retryCount_SetRetryCount f] by blast
  with h1 h3 show ?thesis by blast
qed

text \<open>
  C2. When every attempt that the retry count allows has failed, \<open>do\<close> returns the
  accumulated \<open>Response\<close> with a nil error; no error is made up for the exhaustion.
  The \<open>Response\<close> is the empty one when no attempt received a response, and it carries
  the status (500 or more) and the body of the last attempt when that attempt received
  one and read its body. The retry count is below the largest \<open>int\<close>: otherwise the
  attempts are never exhausted.
\<close>

theorem exhausted_retries_return_nil_error:
  assumes "retryCount hhc <s MaxInt"
      and "\<forall>j < max_attempts hhc.
             attempt_fails e (hystrixCommandName hhc) (closed request) j"
      and "max_attempts hhc < fuel"
  shows "\<exists>hr w. do fuel hhc e request = (Returns (hr, None), w) \<and>
           attempts w = max_attempts hhc \<and>
           ((\<forall>j < max_attempts hhc.
               no_response e (hystrixCommandName hhc) (closed request) j) \<longrightarrow>
            hr = empty_Response) \<and>
           (\<forall>resp rc.
              0 \<le>s retryCount hhc \<and>
              admission e (hystrixCommandName hhc) (nat (sint (retryCount hhc))) = Admit \<and>
              transport e (nat (sint (retryCount hhc))) (closed request) = Inr resp \<and>
              Body resp = Some rc \<and> read_err rc = None \<longrightarrow>
              hr = \<lparr>statusCode = StatusCode resp, body = read_data rc\<rparr> \<and>
              500 \<le>s statusCode hr)"
proof -
  let ?rq = "closed request"
  let ?s = "(\<lparr>attempts = 0, trace = [SetClose True]\<rparr>, empty_Response)"
  let ?K = "max_attempts hhc"
  let ?name = "hystrixCommandName hhc"
  from do_exhausted_result [OF assms] obtain w hr where
    1: "do fuel hhc e request = (Returns (hr, None), w)" and
    2: "(w, hr) = failed_attempts ?K hhc e ?rq 0 ?s" and
    3: "attempts w = ?K"
    by blast
  have 4: "hr = empty_Response" if nr: "\<forall>j < ?K. no_response e ?name ?rq j"
  proof -
    have "\<forall>j < ?K. no_response e ?name ?rq (attempts (fst ?s) + j)"
      using nr by simp
    from failed_attempts_no_response [OF this, of 0] show ?thesis
      by (simp add: 2 [symmetric])
  qed
  have 5: "hr = \<lparr>statusCode = StatusCode resp, body = read_data rc\<rparr> \<and> 500 \<le>s statusCode hr"
    if h: "0 \<le>s retryCount hhc" "admission e ?name (nat (sint (retryCount hhc))) = Admit"
      "transport e (nat (sint (retryCount hhc))) ?rq = Inr resp" "Body resp = Some rc"
      "read_err rc = None"
    for resp rc
  proof -
    let ?k = "nat (sint (retryCount hhc))"
    have K: "?K = Suc ?k"
      using h(1) by (simp add: word_sle_eq nat_add_distrib)
    have f: "\<forall>j < ?k. attempt_fails e ?name ?rq (attempts (fst ?s) + j)"
      using assms(2) unfolding K by simp
    have "snd (failed_attempts (Suc ?k) hhc e ?rq 0 ?s) =
          \<lparr>statusCode = StatusCode resp, body = read_data rc\<rparr>"
      by (rule failed_attempts_last [OF f]) (simp_all add: h)
    then have a: "hr = \<lparr>statusCode = StatusCode resp, body = read_data rc\<rparr>"
      using 2 unfolding K by (metis snd_conv)
    have "attempt_fails e ?name ?rq ?k"
      using assms(2) unfolding K by simp
    then have "500 \<le>s StatusCode resp"
      using h(2-5) by (simp add: attempt_fails_def work_fails_def)
    with a show ?thesis by simp
  qed
  from 1 3 4 5 show ?thesis by blast
qed

theorem exhausted_retries_return_nil_error_witness:
  "retryCount (SetRetryCount sample_client 1) <s MaxInt \<and>
   (\<exists>w. do 3 (SetRetryCount sample_client 1) env_503
          sample_request =
        (Returns (\<lparr>statusCode = 503, body = [1, 2, 3]\<rparr>, None), w) \<and> attempts w = 2) \<and>
   (\<exists>w. do 3 (SetRetryCount sample_client 1) refusing_env
          sample_request =
        (Returns (empty_Response, None), w) \<and> attempts w = 2)"
proof -
  let ?hhc = "SetRetryCount sample_client 1"
  let ?rq = "closed_request"
  let ?e1 = "env_503"
  let ?e2 = "refusing_env"
  have r: "retryCount ?hhc = 1" by (simp add: SetRetryCount_def)
  have N: "retryCount ?hhc <s MaxInt"
    by (simp add: r word_sless_alt MaxInt_def)
  have K: "max_attempts ?hhc = 2" by (simp add: r)
  have fuel: "max_attempts ?hhc < 3" by (simp add: r)
  have f1: "\<forall>j < max_attempts ?hhc. attempt_fails ?e1 (hystrixCommandName ?hhc) ?rq j"
    by (simp add: attempt_fails_def work_fails_def sample_env_def answer_def word_sle_eq)
  have f2: "\<forall>j < max_attempts ?hhc. attempt_fails ?e2 (hystrixCommandName ?hhc) ?rq j"
    by (simp add: attempt_fails_def work_fails_def sample_env_def refused_def)
  from exhausted_retries_return_nil_error [OF N f1 fuel] obtain hr1 w1 where
    a1: "do 3 ?hhc ?e1 sample_request = (Returns (hr1, None), w1)" and b1: "attempts w1 = 2" and
    c1: "\<forall>resp rc.
              0 \<le>s retryCount ?hhc \<and>
              admission ?e1 (hystrixCommandName ?hhc) (nat (sint (retryCount ?hhc))) = Admit \<and>
              transport ?e1 (nat (sint (retryCount ?hhc))) ?rq = Inr resp \<and>
              Body resp = Some rc \<and> read_err rc = None \<longrightarrow>
              hr1 = \<lparr>statusCode = StatusCode resp, body = read_data rc\<rparr> \<and>
              500 \<le>s statusCode hr1"
    unfolding K by blast
  have "hr1 = \<lparr>statusCode = 503, body = [1, 2, 3]\<rparr>"
    using c1 [rule_format, of "\<lparr>StatusCode = 503, Body = Some \<lparr>read_data = [1, 2, 3], read_err = None\<rparr>\<rparr>"
        "\<lparr>read_data = [1, 2, 3], read_err = None\<rparr>"]
    by (simp add: r sample_env_def answer_def word_sle_eq)
  with a1 b1 have 1: "\<exists>w. do 3 ?hhc ?e1 sample_request =
        (Returns (\<lparr>statusCode = 503, body = [1, 2, 3]\<rparr>, None), w) \<and> attempts w = 2"
    by blast
  from exhausted_retries_return_nil_error [OF N f2 fuel] obtain hr2 w2 where
    a2: "do 3 ?hhc ?e2 sample_request = (Returns (hr2, None), w2)" and b2: "attempts w2 = 2" and
    c2: "(\<forall>j < max_attempts ?hhc.
               no_response ?e2 (hystrixCommandName ?hhc) ?rq j) \<longrightarrow> hr2 = empty_Response"
    unfolding K by blast
  have "hr2 = empty_Response"
    using c2 by (simp add: no_response_def sample_env_def refused_def)
  with a2 b2 have 2: "\<exists>w. do 3 ?hhc ?e2 sample_request = (Returns (empty_Response, None), w) \<and> attempts w = 2"
    by blast
  from N 1 2 show ?thesis by blast
qed

text \<open>
  C3, as amended. A rejection by the breaker is not returned to the caller: whenever
  \<open>do\<close> returns, its error is nil. \<open>do\<close> installs a fallback that hands the
  rejection error back to \<open>hystrix.Do\<close>, takes the error as a failed attempt, sleeps
  and goes on to the next attempt. When the breaker rejects every attempt, \<open>do\<close>
  returns the empty \<open>Response\<close> and a nil error after \<open>retryCount + 1\<close> invocations
  of \<open>hystrix.Do\<close> and as many sleeps, without one HTTP call. The second theorem after
  this one is the claim as stated failing: the circuit is open, and \<open>Get\<close> returns a
  nil error.
\<close>

theorem breaker_rejection_is_not_returned:
  "(\<forall>hr err w. do fuel hhc e request = (Returns (hr, err), w) \<longrightarrow> err = None) \<and>
   (retryCount hhc <s MaxInt \<and>
    (\<forall>j < max_attempts hhc. \<exists>err. admission e (hystrixCommandName hhc) j = Reject err) \<and>
    max_attempts hhc < fuel \<longrightarrow>
    (\<exists>w. do fuel hhc e request = (Returns (empty_Response, None), w) \<and>
       client_calls (trace w) = [] \<and>
       hystrix_calls (trace w) =
         replicate (max_attempts hhc) (hystrixCommandName hhc) \<and>
       length (sleeps (trace w)) = max_attempts hhc))"
proof (intro conjI allI impI)
  fix hr err w
  assume "do fuel hhc e request = (Returns (hr, err), w)"
  then show "err = None"
    unfolding do_def Let_def by (rule do_loop_error_nil)
next
  let ?rq = "closed request"
  let ?s = "(\<lparr>attempts = 0, trace = [SetClose True]\<rparr>, empty_Response)"
  let ?K = "max_attempts hhc"
  let ?name = "hystrixCommandName hhc"
  assume h: "retryCount hhc <s MaxInt \<and>
    (\<forall>j < ?K. \<exists>err. admission e ?name j = Reject err) \<and> ?K < fuel"
  then have N: "retryCount hhc <s MaxInt" and fuel: "?K < fuel"
    and rej: "\<forall>j < ?K. \<exists>err. admission e ?name j = Reject err"
    by blast+
  have nr: "\<forall>j < ?K. no_response e ?name ?rq j"
    using rej by (auto intro: rejected_no_response)
  then have f: "\<forall>j < ?K. attempt_fails e ?name ?rq j"
    by (auto intro: no_response_fails)
  from do_exhausted_result [OF N f fuel] obtain w hr where
    1: "do fuel hhc e request = (Returns (hr, None), w)" and
    2: "(w, hr) = failed_attempts ?K hhc e ?rq 0 ?s" and
    3: "trace w = SetClose True # failed_events ?K hhc e ?rq 0 0"
    by blast
  have "\<forall>j < ?K. no_response e ?name ?rq (attempts (fst ?s) + j)"
    using nr by simp
  from failed_attempts_no_response [OF this, of 0] have 4: "hr = empty_Response"
    by (simp add: 2 [symmetric])
  have "\<forall>j < ?K. admission e ?name (0 + j) \<noteq> Admit"
    using rej by auto
  from client_calls_failed_events_rejected [OF this, of ?rq 0]
  have 5: "client_calls (trace w) = []" by (simp add: 3)
  have 6: "hystrix_calls (trace w) = replicate ?K ?name"
    by (simp add: 3 hystrix_calls_failed_events)
  have 7: "length (sleeps (trace w)) = ?K"
    by (simp add: 3 sleeps_failed_events)
  from 1 4 5 6 7 show "\<exists>w. do fuel hhc e request = (Returns (empty_Response, None), w) \<and>
       client_calls (trace w) = [] \<and>
       hystrix_calls (trace w) = replicate ?K ?name \<and>
       length (sleeps (trace w)) = ?K"
    by blast
qed

theorem breaker_rejection_is_not_returned_witness:
  "retryCount (SetRetryCount sample_client 1) <s MaxInt \<and>
   admission saturated_env ''default'' 1 =
     Reject ErrMaxConcurrency \<and>
   (\<exists>w. do 3 (SetRetryCount sample_client 1)
           saturated_env sample_request =
         (Returns (empty_Response, None), w) \<and>
      client_calls (trace w) = [] \<and>
      hystrix_calls (trace w) = [''default'', ''default''] \<and>
      length (sleeps (trace w)) = 2) \<and>
   (\<forall>hr err w. do 3 (SetRetryCount sample_client 1)
           saturated_env sample_request \<noteq>
         (Returns (hr, Some err), w))"
proof -
  let ?hhc = "SetRetryCount sample_client 1"
  let ?e = "saturated_env"
  have r: "retryCount ?hhc = 1" by (simp add: SetRetryCount_def)
  have n: "hystrixCommandName ?hhc = ''default''"
    by (simp add: SetRetryCount_def sample_client_def NewHystrixHTTPClient_def)
  have N: "retryCount ?hhc <s MaxInt"
    by (simp add: r word_sless_alt MaxInt_def)
  have K: "max_attempts ?hhc = 2" by (simp add: r)
  have fuel: "max_attempts ?hhc < 3" by (simp add: r)
  have f: "\<forall>j < max_attempts ?hhc. \<exists>err. admission ?e (hystrixCommandName ?hhc) j = Reject err"
    by (simp add: sample_env_def)
  have a: "admission ?e ''default'' 1 = Reject ErrMaxConcurrency" by (simp add: sample_env_def)
  note t = breaker_rejection_is_not_returned [of 3 ?hhc ?e sample_request]
  have 1: "\<exists>w. do 3 ?hhc ?e sample_request = (Returns (empty_Response, None), w) \<and>
      client_calls (trace w) = [] \<and>
      hystrix_calls (trace w) = [''default'', ''default''] \<and>
      length (sleeps (trace w)) = 2"
    using t [THEN conjunct2] N f fuel unfolding K n by (simp add: numeral_2_eq_2)
  have 2: "\<forall>hr err w. do 3 ?hhc ?e sample_request \<noteq> (Returns (hr, Some err), w)"
    using t [THEN conjunct1] by auto
  from N a 1 2 show ?thesis by blast
qed

theorem open_circuit_returns_nil_error:
  "admission open_env ''default'' 0 =
     Reject ErrCircuitOpen \<and>
   Get 2 sample_client open_env
       ''http://localhost/'' =
     (Returns (empty_Response, None),
      \<lparr>attempts = 1, trace = [SetClose True, HystrixDo ''default'', Sleep 0]\<rparr>)"
  by (simp add: Get_def do_def sample_env_def sample_NewRequest_def sample_client_def
      NewHystrixHTTPClient_def defaultHystrixRetryCount_def NewNoRetrier_def attempt_def
      hystrix_Do_def tryFallback_def log_def numeral_2_eq_2 word_sle_eq)

text \<open>
  C4, as amended. With a retry count of 2, a back-off strategy that gives the same
  interval \<open>d\<close> for every attempt, and a unit of work that is admitted and fails at
  every attempt, \<open>do\<close> makes exactly three HTTP calls and sleeps exactly three times
  for \<open>d\<close>, once after each failed attempt, the last one included: the loop body
  sleeps before it tests whether an attempt is left. The second theorem after this one
  is the claim as stated failing on a back-off of 100 ms: three sleeps, not two, and
  the last event of the call is a sleep.
\<close>

theorem constant_backoff_sleeps_after_every_failure:
  assumes "retryCount hhc = 2"
      and "\<forall>i. retrier hhc i = d"
      and "\<forall>n. admission e (hystrixCommandName hhc) n = Admit \<and>
               work_fails (transport e n (closed request))"
      and "3 < fuel"
  shows "\<exists>hr. do fuel hhc e request =
           (Returns (hr, None),
            \<lparr>attempts = 3,
             trace = [SetClose True,
                      HystrixDo (hystrixCommandName hhc), ClientDo (closed request), Sleep d,
                      HystrixDo (hystrixCommandName hhc), ClientDo (closed request), Sleep d,
                      HystrixDo (hystrixCommandName hhc), ClientDo (closed request), Sleep d]\<rparr>)"
proof -
  let ?rq = "closed request"
  have K: "max_attempts hhc = Suc (Suc (Suc 0))"
    by (simp add: assms(1))
  have N: "retryCount hhc <s MaxInt"
    by (simp add: assms(1) word_sless_alt MaxInt_def)
  have f: "\<forall>j < max_attempts hhc. attempt_fails e (hystrixCommandName hhc) ?rq j"
    using assms(3) by (simp add: attempt_fails_def)
  have fuel: "max_attempts hhc < fuel"
    using assms(4) by (simp add: K)
  from do_exhausted_result [OF N f fuel] obtain w hr where
    1: "do fuel hhc e request = (Returns (hr, None), w)" and
    2: "attempts w = Suc (Suc (Suc 0))" and
    3: "trace w = SetClose True # failed_events (Suc (Suc (Suc 0))) hhc e ?rq 0 0"
    unfolding K by blast
  have "w = \<lparr>attempts = 3,
             trace = [SetClose True,
                      HystrixDo (hystrixCommandName hhc), ClientDo ?rq, Sleep d,
                      HystrixDo (hystrixCommandName hhc), ClientDo ?rq, Sleep d,
                      HystrixDo (hystrixCommandName hhc), ClientDo ?rq, Sleep d]\<rparr>"
    using 2 3 assms(2,3) by (cases w) simp
  with 1 show ?thesis by blast
qed

theorem constant_backoff_sleeps_after_every_failure_witness:
  "retryCount (SetRetrier (SetRetryCount sample_client 2) (\<lambda>retry. 100000000)) = 2 \<and>
   (\<exists>hr. do 4 (SetRetrier (SetRetryCount sample_client 2) (\<lambda>retry. 100000000))
          refusing_env sample_request =
        (Returns (hr, None),
         \<lparr>attempts = 3,
          trace = [SetClose True,
                   HystrixDo ''default'', ClientDo closed_request, Sleep 100000000,
                   HystrixDo ''default'', ClientDo closed_request, Sleep 100000000,
                   HystrixDo ''default'', ClientDo closed_request, Sleep 100000000]\<rparr>))"
proof -
  let ?hhc = "SetRetrier (SetRetryCount sample_client 2) (\<lambda>retry. 100000000)"
  let ?e = "refusing_env"
  have h1: "retryCount ?hhc = 2" by (simp add: SetRetrier_def SetRetryCount_def)
  have h2: "\<forall>i. retrier ?hhc i = 100000000" by (simp add: SetRetrier_def)
  have n: "hystrixCommandName ?hhc = ''default''"
    by (simp add: SetRetrier_def SetRetryCount_def sample_client_def NewHystrixHTTPClient_def)
  have h3: "\<forall>n. admission ?e (hystrixCommandName ?hhc) n = Admit \<and>
               work_fails (transport ?e n closed_request)"
    by (simp add: sample_env_def refused_def work_fails_def)
  have h4: "(3::nat) < 4" by simp
  show ?thesis
    using constant_backoff_sleeps_after_every_failure [OF h1 h2 h3 h4] h1
    unfolding n by simp
qed

theorem constant_backoff_three_sleeps:
  "sleeps (trace (snd (do 4 (SetRetrier (SetRetryCount sample_client 2) (\<lambda>retry. 100000000))
      refusing_env sample_request))) =
     [100000000, 100000000, 100000000] \<and>
   length (client_calls (trace (snd (do 4 (SetRetrier (SetRetryCount sample_client 2) (\<lambda>retry. 100000000))
      refusing_env sample_request)))) = 3 \<and>
   last (trace (snd (do 4 (SetRetrier (SetRetryCount sample_client 2) (\<lambda>retry. 100000000))
      refusing_env sample_request))) = Sleep 100000000"
  by (simp add: do_def SetRetrier_def SetRetryCount_def sample_env_def sample_client_def
      NewHystrixHTTPClient_def attempt_def hystrix_Do_def tryFallback_def run_def refused_def
      log_def word_sle_eq eval_nat_numeral Let_def)

text \<open>
  C10. The accumulated \<open>Response\<close> is one variable for the whole call and is not
  reset between attempts. When attempt \<open>i\<close> receives a response with a status of 500
  or more and reads its body, and every later attempt receives no response (the
  transport fails, or the breaker rejects the call), the \<open>Response\<close> that \<open>do\<close>
  returns on exhaustion carries the status and the body of attempt \<open>i\<close>, not anything
  of the last attempt.
\<close>

theorem earlier_response_is_returned_on_exhaustion:
  assumes N: "retryCount hhc <s MaxInt"
      and i: "i < max_attempts hhc"
      and before: "\<forall>j<i. attempt_fails e (hystrixCommandName hhc) (closed request) j"
      and adm: "admission e (hystrixCommandName hhc) i = Admit"
      and resp: "transport e i (closed request) = Inr resp"
      and rc: "Body resp = Some rc" "read_err rc = None"
      and status: "500 \<le>s StatusCode resp"
      and later: "\<forall>j. i < j \<and> j < max_attempts hhc \<longrightarrow>
                    no_response e (hystrixCommandName hhc) (closed request) j"
      and fuel: "max_attempts hhc < fuel"
  shows "\<exists>w. do fuel hhc e request =
           (Returns (\<lparr>statusCode = StatusCode resp, body = read_data rc\<rparr>, None), w) \<and>
           attempts w = max_attempts hhc"
proof -
  let ?rq = "closed request"
  let ?s = "(\<lparr>attempts = 0, trace = [SetClose True]\<rparr>, empty_Response)"
  let ?K = "max_attempts hhc"
  let ?name = "hystrixCommandName hhc"
  have fi: "attempt_fails e ?name ?rq i"
    using adm resp rc status by (simp add: attempt_fails_def work_fails_def)
  have f: "\<forall>j < ?K. attempt_fails e ?name ?rq j"
  proof (intro allI impI)
    fix j assume j: "j < ?K"
    consider "j < i" | "j = i" | "i < j" by linarith
    then show "attempt_fails e ?name ?rq j"
    proof cases
      case 1 with before show ?thesis by blast
    next
      case 2 with fi show ?thesis by simp
    next
      case 3 with later j show ?thesis by (blast intro: no_response_fails)
    qed
  qed
  from do_exhausted_result [OF N f fuel] obtain w hr where
    1: "do fuel hhc e request = (Returns (hr, None), w)" and
    2: "(w, hr) = failed_attempts ?K hhc e ?rq 0 ?s" and
    3: "attempts w = ?K"
    by blast
  obtain m where K: "?K = Suc i + m"
    using i less_iff_Suc_add by auto
  let ?s1 = "failed_attempts (Suc i) hhc e ?rq 0 ?s"
  have fS: "\<forall>j<Suc i. attempt_fails e ?name ?rq (attempts (fst ?s) + j)"
    using f i by simp
  have a1: "attempts (fst ?s1) = Suc i"
    using failed_attempts_attempts [OF fS, of 0] by simp
  have h1: "snd ?s1 = \<lparr>statusCode = StatusCode resp, body = read_data rc\<rparr>"
    by (rule failed_attempts_last) (use before adm resp rc in simp_all)
  have nr: "\<forall>j<m. no_response e ?name ?rq (attempts (fst ?s1) + j)"
  proof (intro allI impI)
    fix j assume "j < m"
    then have "i < Suc i + j \<and> Suc i + j < ?K" unfolding K by simp
    with later have "no_response e ?name ?rq (Suc i + j)" by blast
    then show "no_response e ?name ?rq (attempts (fst ?s1) + j)" by (simp only: a1)
  qed
  have "failed_attempts ?K hhc e ?rq 0 ?s =
        failed_attempts m hhc e ?rq (0 + of_nat (Suc i)) ?s1"
    unfolding K by (rule failed_attempts_add)
  then have "hr = snd (failed_attempts m hhc e ?rq (0 + of_nat (Suc i)) ?s1)"
    using 2 by (metis snd_conv)
  also have "\<dots> = snd ?s1"
    by (rule failed_attempts_no_response [OF nr])
  finally have "hr = \<lparr>statusCode = StatusCode resp, body = read_data rc\<rparr>"
    by (simp only: h1)
  with 1 3 show ?thesis by blast
qed

theorem earlier_response_is_returned_on_exhaustion_witness:
  "retryCount (SetRetryCount sample_client 2) <s MaxInt \<and>
   transport (sample_env (\<lambda>n. Admit) first_503_then_refused) 0 closed_request =
     answer 503 [7, 8] \<and>
   transport (sample_env (\<lambda>n. Admit) first_503_then_refused) 2 closed_request =
     refused \<and>
   (\<exists>w. do 4 (SetRetryCount sample_client 2) (sample_env (\<lambda>n. Admit) first_503_then_refused)
          sample_request =
        (Returns (\<lparr>statusCode = 503, body = [7, 8]\<rparr>, None), w) \<and> attempts w = 3)"
proof -
  let ?hhc = "SetRetryCount sample_client 2"
  let ?e = "sample_env (\<lambda>n. Admit) first_503_then_refused"
  let ?rq = "closed_request"
  let ?rc = "\<lparr>read_data = [7, 8], read_err = None\<rparr>"
  let ?resp = "\<lparr>StatusCode = 503, Body = Some ?rc\<rparr>"
  have r: "retryCount ?hhc = 2" by (simp add: SetRetryCount_def)
  have N: "retryCount ?hhc <s MaxInt"
    by (simp add: r word_sless_alt MaxInt_def)
  have K: "max_attempts ?hhc = 3" by (simp add: r)
  have i: "0 < max_attempts ?hhc" by (simp add: r)
  have before: "\<forall>j<0. attempt_fails ?e (hystrixCommandName ?hhc) ?rq j" by simp
  have adm: "admission ?e (hystrixCommandName ?hhc) 0 = Admit" by (simp add: sample_env_def)
  have resp: "transport ?e 0 ?rq = Inr ?resp"
    by (simp add: sample_env_def first_503_then_refused_def answer_def)
  have rc: "Body ?resp = Some ?rc" "read_err ?rc = None" by simp_all
  have status: "500 \<le>s StatusCode ?resp" by (simp add: word_sle_eq)
  have later: "\<forall>j. 0 < j \<and> j < max_attempts ?hhc \<longrightarrow>
                    no_response ?e (hystrixCommandName ?hhc) ?rq j"
    by (simp add: no_response_def sample_env_def first_503_then_refused_def refused_def)
  have fuel: "max_attempts ?hhc < 4" by (simp add: r)
  have t0: "transport ?e 0 ?rq = answer 503 [7, 8]"
    by (simp add: sample_env_def first_503_then_refused_def)
  have t2: "transport ?e 2 ?rq = refused"
    by (simp add: sample_env_def first_503_then_refused_def)
  show ?thesis
    using earlier_response_is_returned_on_exhaustion
      [OF N i before adm resp rc status later fuel] N t0 t2
    unfolding K by simp
qed



text \<open>
  C9. The unit of work reads the body only when it is not nil, and closes it in either
  case. When the attempts before attempt \<open>k\<close> fail and attempt \<open>k\<close> is admitted and
  receives a response whose body is nil, \<open>do\<close> panics at the \<open>Close\<close> instead of
  returning. When every response that the transport returns has a body, \<open>do\<close> does not
  panic, whatever the fuel.
\<close>

theorem nil_body_panics:
  "((\<forall>j<k. attempt_fails e (hystrixCommandName hhc) (closed request) j) \<and>
    admission e (hystrixCommandName hhc) k = Admit \<and>
    transport e k (closed request) = Inr resp \<and> Body resp = None \<and>
    int k \<le> sint (retryCount hhc) \<and> k < fuel \<longrightarrow>
    fst (do fuel hhc e request) = Panics) \<and>
   ((\<forall>n r resp'. transport e' n r = Inr resp' \<longrightarrow> Body resp' \<noteq> None) \<longrightarrow>
    fst (do fuel' hhc' e' request') \<noteq> Panics)"
proof (intro conjI impI)
  let ?rq = "closed request"
  assume h: "(\<forall>j<k. attempt_fails e (hystrixCommandName hhc) ?rq j) \<and>
    admission e (hystrixCommandName hhc) k = Admit \<and>
    transport e k ?rq = Inr resp \<and> Body resp = None \<and>
    int k \<le> sint (retryCount hhc) \<and> k < fuel"
  then have f: "\<forall>j<k. attempt_fails e (hystrixCommandName hhc) ?rq j"
    and k: "int k \<le> sint (retryCount hhc)" and "k < fuel"
    by blast+
  from \<open>k < fuel\<close> obtain m where "fuel = Suc (k + m)" by (auto dest: less_imp_Suc_add)
  then have fuel: "fuel = k + Suc m" by simp
  from do_reaches_attempt [OF f k, of m] obtain w hr where
    1: "do fuel hhc e request = do_loop (Suc m) hhc e ?rq (of_nat k) (w, hr)" and
    c: "of_nat k \<le>s retryCount hhc" and
    2: "attempts w = k"
    unfolding fuel by blast
  have "fst (attempt hhc e ?rq (w, hr)) = Panic"
    by (rule attempt_nil_body [where resp = resp]) (use h 2 in simp_all)
  then obtain w' hr' where a: "attempt hhc e ?rq (w, hr) = (Panic, w', hr')"
    by (cases "attempt hhc e ?rq (w, hr)") auto
  show "fst (do fuel hhc e request) = Panics"
    unfolding 1 using c by (simp add: a)
next
  assume "\<forall>n r resp'. transport e' n r = Inr resp' \<longrightarrow> Body resp' \<noteq> None"
  then show "fst (do fuel' hhc' e' request') \<noteq> Panics"
    unfolding do_def Let_def by (rule do_loop_no_panic)
qed

theorem nil_body_panics_witness:
  "transport (sample_env (\<lambda>n. Admit) nil_body_at_second) 1 closed_request =
     Inr \<lparr>StatusCode = 204, Body = None\<rparr> \<and>
   fst (do 2 (SetRetryCount sample_client 3) (sample_env (\<lambda>n. Admit) nil_body_at_second)
          sample_request) = Panics \<and>
   fst (do 9 (SetRetryCount sample_client 3) (sample_env (\<lambda>n. Admit) (\<lambda>n. answer 500 [1]))
          sample_request) \<noteq> Panics"
proof -
  let ?hhc = "SetRetryCount sample_client 3"
  let ?e = "sample_env (\<lambda>n. Admit) nil_body_at_second"
  let ?e' = "sample_env (\<lambda>n. Admit) (\<lambda>n. answer 500 [1])"
  let ?rq = "closed_request"
  have t: "transport ?e 1 ?rq = Inr \<lparr>StatusCode = 204, Body = None\<rparr>"
    by (simp add: sample_env_def nil_body_at_second_def)
  have h: "(\<forall>j<1. attempt_fails ?e (hystrixCommandName ?hhc) ?rq j) \<and>
    admission ?e (hystrixCommandName ?hhc) 1 = Admit \<and>
    transport ?e 1 ?rq = Inr \<lparr>StatusCode = 204, Body = None\<rparr> \<and>
    Body \<lparr>StatusCode = 204, Body = None\<rparr> = None \<and>
    int 1 \<le> sint (retryCount ?hhc) \<and> (1::nat) < 2"
    by (simp add: attempt_fails_def work_fails_def sample_env_def nil_body_at_second_def
        answer_def word_sle_eq SetRetryCount_def)
  have h': "\<forall>n r resp'. transport ?e' n r = Inr resp' \<longrightarrow> Body resp' \<noteq> None"
    by (auto simp: sample_env_def answer_def)
  have 1: "fst (do 2 ?hhc ?e sample_request) = Panics"
    using nil_body_panics [of 1 ?e ?hhc sample_request "\<lparr>StatusCode = 204, Body = None\<rparr>" 2,
        THEN conjunct1] h by blast
  have 2: "fst (do 9 ?hhc ?e' sample_request) \<noteq> Panics"
    using nil_body_panics [of _ _ _ _ _ _ ?e' 9 ?hhc sample_request, THEN conjunct2] h' by blast
  from t 1 2 show ?thesis by blast
qed



text \<open>
  C8. \<open>do\<close> sets \<open>request.Close\<close> to true before the loop, and nothing in the loop
  writes the field: the first event of every call is this write, no other write of the
  field follows, and every HTTP call of the call is made with the request as it was
  given but for \<open>Close\<close>, which is true. This holds for every fuel, that is at every
  point of a run, whether it returns, panics or goes on.
\<close>

theorem request_is_marked_close_once:
  "\<exists>evs n. trace (snd (do fuel hhc e request)) = SetClose True # evs \<and>
     close_writes evs = [] \<and>
     client_calls evs = replicate n (closed request) \<and>
     (\<forall>r \<in> set (client_calls evs). Close r)"
proof -
  let ?rq = "closed request"
  let ?s = "(\<lparr>attempts = 0, trace = [SetClose True]\<rparr>, empty_Response)"
  from do_loop_trace [of fuel hhc e ?rq 0 ?s] obtain evs n where
    1: "trace (snd (do_loop fuel hhc e ?rq 0 ?s)) = trace (fst ?s) @ evs" and
    2: "close_writes evs = []" and 3: "client_calls evs = replicate n ?rq"
    by blast
  have "trace (snd (do fuel hhc e request)) = SetClose True # evs"
    using 1 by (simp add: do_def)
  moreover have "\<forall>r \<in> set (client_calls evs). Close r"
    by (simp add: 3)
  ultimately show ?thesis using 2 3 by blast
qed

theorem request_is_marked_close_once_witness:
  "close_writes (trace (snd (do 3 (SetRetryCount sample_client 5)
      (sample_env (\<lambda>n. Admit) third_time_lucky) sample_request))) = [True] \<and>
   hd (trace (snd (do 3 (SetRetryCount sample_client 5)
      (sample_env (\<lambda>n. Admit) third_time_lucky) sample_request))) = SetClose True \<and>
   list_all Close (client_calls (trace (snd (do 3 (SetRetryCount sample_client 5)
      (sample_env (\<lambda>n. Admit) third_time_lucky) sample_request))))"
proof -
  let ?t = "trace (snd (do 3 (SetRetryCount sample_client 5)
      (sample_env (\<lambda>n. Admit) third_time_lucky) sample_request))"
  from request_is_marked_close_once
    [of 3 "SetRetryCount sample_client 5" "sample_env (\<lambda>n. Admit) third_time_lucky" sample_request]
  obtain evs n where 1: "?t = SetClose True # evs" and 2: "close_writes evs = []"
    and 3: "\<forall>r \<in> set (client_calls evs). Close r"
    by blast
  show ?thesis
    unfolding 1 using 2 3 by (simp add: list_all_iff)
qed

end
